theory Spec2Isabelle
  imports Main "HOL-Library.Sublist" "HOL-Library.Multiset"
begin

section \<open>Errors thrown by the services\<close>

text \<open>
  The backend throws NestJS \<open>HttpException\<close>s carrying a message and a status; a
  \<open>NotFoundException\<close> is an \<open>HttpException\<close> of status \<open>NOT_FOUND\<close>. Reading a
  property of \<open>null\<close> throws a \<open>TypeError\<close>, and the persistence layer may reject an
  operation with an error of its own (\<open>JsError\<close>).
\<close>

datatype HttpStatus = BAD_REQUEST | UNAUTHORIZED | NOT_FOUND | INTERNAL_SERVER_ERROR

datatype exn =
    HttpException string HttpStatus
  | TypeError string
  | JsError string

fun exn_message :: "exn \<Rightarrow> string" where
  "exn_message (HttpException m _) = m"
| "exn_message (TypeError m) = m"
| "exn_message (JsError m) = m"

section \<open>Strings\<close>

text \<open>
  Strings are lists of 8-bit characters, so the model covers the ASCII range of the
  JavaScript strings. \<open>\d\<close> of a JavaScript regular expression is \<open>[0-9]\<close>.
\<close>

definition is_digit :: "char \<Rightarrow> bool" where
  "is_digit c = (c \<in> set ''0123456789'')"

text \<open>\<open>s.replace(/\D/g, '')\<close>: every character that is not a digit is removed.\<close>

definition strip_non_digits :: "string \<Rightarrow> string" where
  "strip_non_digits s = filter is_digit s"

text \<open>
  \<open>s.replace(/(\d{3})(\d{3})(\d{3})(\d{2})/, '$1.$2.$3-$4')\<close>: the leftmost run of eleven
  digits is rewritten, the rest of the string is kept; without such a run the string is
  returned as it is.
\<close>

fun replace_cpf_mask :: "string \<Rightarrow> string" where
  "replace_cpf_mask [] = []"
| "replace_cpf_mask (c # cs) =
     (if 11 \<le> length (c # cs) \<and> list_all is_digit (take 11 (c # cs))
      then take 3 (c # cs) @ ''.'' @ take 3 (drop 3 (c # cs)) @ ''.''
           @ take 3 (drop 6 (c # cs)) @ ''-'' @ take 2 (drop 9 (c # cs)) @ drop 11 (c # cs)
      else c # replace_cpf_mask cs)"

text \<open>The canonical display format \<open>000.000.000-00\<close>.\<close>

definition is_masked_cpf :: "string \<Rightarrow> bool" where
  "is_masked_cpf s =
     (length s = 14
      \<and> list_all is_digit (take 3 s) \<and> s ! 3 = CHR ''.''
      \<and> list_all is_digit (take 3 (drop 4 s)) \<and> s ! 7 = CHR ''.''
      \<and> list_all is_digit (take 3 (drop 8 s)) \<and> s ! 11 = CHR ''-''
      \<and> list_all is_digit (drop 12 s))"

section \<open>Users\<close>

record UserEntity =
  u_id :: int
  u_uid :: string
  u_name :: string
  u_email :: string
  u_password :: string
  u_cpf :: string

record UserCreateDTO =
  c_name :: string
  c_email :: string
  c_password :: string
  c_cpf :: string

record UserDTO =
  d_id :: int
  d_uid :: string
  d_name :: string
  d_email :: string
  d_cpf :: string

record LoginUserDTO =
  l_email :: string
  l_password :: string

text \<open>\<open>Partial<UserEntity>\<close> as \<open>mapUserDTO\<close> builds it: the four mapped columns.\<close>

record UserPartial =
  p_name :: string
  p_email :: string
  p_password :: string
  p_cpf :: string

text \<open>
  The users table behind the TypeORM repository: its rows in insertion order and the
  next value of the auto-increment key.
\<close>

record users_db =
  rows :: "UserEntity list"
  next_id :: int

text \<open>\<open>toUserDTO\<close> of \<open>users/mapper.ts\<close>.\<close>

definition toUserDTO :: "UserEntity \<Rightarrow> UserDTO" where
  "toUserDTO entity =
     \<lparr>d_id = u_id entity, d_uid = u_uid entity, d_name = u_name entity,
      d_email = u_email entity,
      d_cpf = replace_cpf_mask (strip_non_digits (u_cpf entity))\<rparr>"

text \<open>
  \<open>toUserDTO\<close> called on what \<open>findOne\<close> returned: on \<open>null\<close> the first field
  access throws a \<open>TypeError\<close>.
\<close>

definition toUserDTO_nullable :: "UserEntity option \<Rightarrow> exn + UserDTO" where
  "toUserDTO_nullable e =
     (case e of
        None \<Rightarrow> Inl (TypeError ''Cannot read properties of null'')
      | Some entity \<Rightarrow> Inr (toUserDTO entity))"

definition mapUserDTO :: "UserCreateDTO \<Rightarrow> UserPartial" where
  "mapUserDTO dto =
     \<lparr>p_name = c_name dto, p_email = c_email dto, p_password = c_password dto,
      p_cpf = strip_non_digits (c_cpf dto)\<rparr>"

subsection \<open>Repository operations\<close>

text \<open>
  \<open>findOne({ where })\<close> returns the first row that satisfies the condition, or \<open>null\<close>.
  A write (\<open>save\<close>, \<open>delete\<close>) may be rejected by the database: \<open>fault\<close> is the
  message of that error, \<open>None\<close> when the database accepts the write.
\<close>

definition users_findOne :: "(UserEntity \<Rightarrow> bool) \<Rightarrow> users_db \<Rightarrow> UserEntity option" where
  "users_findOne cond db = find cond (rows db)"

text \<open>\<open>save\<close> of an entity made by \<open>create\<close>, which has no id yet: a row is inserted.\<close>

definition users_save_new ::
  "string option \<Rightarrow> users_db \<Rightarrow> UserPartial \<Rightarrow> string \<Rightarrow> exn + (UserEntity \<times> users_db)" where
  "users_save_new fault db p uid =
     (case fault of
        Some m \<Rightarrow> Inl (JsError m)
      | None \<Rightarrow>
          (let saved = \<lparr>u_id = next_id db, u_uid = uid, u_name = p_name p,
                        u_email = p_email p, u_password = p_password p, u_cpf = p_cpf p\<rparr>
           in Inr (saved, \<lparr>rows = rows db @ [saved], next_id = next_id db + 1\<rparr>)))"

text \<open>
  \<open>preload({ id, ...partial })\<close>: the row of that id with the given columns replaced, or
  \<open>undefined\<close> when there is no such row.
\<close>

definition users_preload :: "users_db \<Rightarrow> int \<Rightarrow> UserPartial \<Rightarrow> UserEntity option" where
  "users_preload db i p =
     (case find (\<lambda>u. u_id u = i) (rows db) of
        None \<Rightarrow> None
      | Some u \<Rightarrow> Some (u\<lparr>u_name := p_name p, u_email := p_email p,
                          u_password := p_password p, u_cpf := p_cpf p\<rparr>))"

text \<open>\<open>save\<close> of a preloaded entity: the row of its id is overwritten.\<close>

definition users_save_existing ::
  "string option \<Rightarrow> users_db \<Rightarrow> UserEntity \<Rightarrow> exn + (UserEntity \<times> users_db)" where
  "users_save_existing fault db e =
     (case fault of
        Some m \<Rightarrow> Inl (JsError m)
      | None \<Rightarrow>
          Inr (e, db\<lparr>rows := map (\<lambda>u. if u_id u = u_id e then e else u) (rows db)\<rparr>))"

text \<open>\<open>delete(id)\<close> removes the rows of that id; it does not fail when there is none.\<close>

definition users_delete :: "string option \<Rightarrow> users_db \<Rightarrow> int \<Rightarrow> exn + users_db" where
  "users_delete fault db i =
     (case fault of
        Some m \<Rightarrow> Inl (JsError m)
      | None \<Rightarrow> Inr (db\<lparr>rows := filter (\<lambda>u. u_id u \<noteq> i) (rows db)\<rparr>))"

subsection \<open>UsersService\<close>

definition getUser :: "users_db \<Rightarrow> int \<Rightarrow> exn + UserDTO" where
  "getUser db i =
     (case users_findOne (\<lambda>u. u_id u = i) db of
        None \<Rightarrow> Inl (HttpException ''User not found'' BAD_REQUEST)
      | Some user \<Rightarrow> Inr (toUserDTO user))"

text \<open>\<open>uid\<close> is the value \<open>uuid.v4()\<close> returns.\<close>

definition createUser ::
  "string option \<Rightarrow> string \<Rightarrow> users_db \<Rightarrow> UserCreateDTO \<Rightarrow> exn + (UserDTO \<times> users_db)" where
  "createUser fault uid db userDTO =
     (case users_findOne (\<lambda>u. u_email u = c_email userDTO) db of
        Some userInDB \<Rightarrow> Inl (HttpException ''User already exists'' BAD_REQUEST)
      | None \<Rightarrow>
          (case users_save_new fault db (mapUserDTO userDTO) uid of
             Inl e \<Rightarrow> Inl e
           | Inr (saved, db') \<Rightarrow> Inr (toUserDTO saved, db')))"

definition updateUser ::
  "string option \<Rightarrow> users_db \<Rightarrow> int \<Rightarrow> UserCreateDTO \<Rightarrow> exn + (UserDTO \<times> users_db)" where
  "updateUser fault db i userDTO =
     (case users_preload db i (mapUserDTO userDTO) of
        None \<Rightarrow> Inl (HttpException ''User not found'' NOT_FOUND)
      | Some user \<Rightarrow>
          (case users_save_existing fault db user of
             Inl e \<Rightarrow> Inl e
           | Inr (saved, db') \<Rightarrow> Inr (toUserDTO saved, db')))"

text \<open>The \<open>catch\<close> of \<open>deleteUser\<close> rethrows whatever \<open>delete\<close> threw as a bad request.\<close>

definition deleteUser :: "string option \<Rightarrow> users_db \<Rightarrow> int \<Rightarrow> exn + users_db" where
  "deleteUser fault db i =
     (case users_delete fault db i of
        Inl exception \<Rightarrow> Inl (HttpException (exn_message exception) BAD_REQUEST)
      | Inr db' \<Rightarrow> Inr db')"

text \<open>
  \<open>comparePasswords\<close> of \<open>src/utils\<close> is not among the sources: it is the parameter
  \<open>comparePasswords\<close>, applied to the stored hash and the submitted password.
\<close>

definition findByLogin ::
  "(string \<Rightarrow> string \<Rightarrow> bool) \<Rightarrow> users_db \<Rightarrow> LoginUserDTO \<Rightarrow> exn + UserDTO" where
  "findByLogin comparePasswords db login =
     (case users_findOne (\<lambda>u. u_email u = l_email login) db of
        None \<Rightarrow> Inl (HttpException ''User not found'' UNAUTHORIZED)
      | Some user \<Rightarrow>
          (if \<not> comparePasswords (u_password user) (l_password login)
           then Inl (HttpException ''Invalid credentials'' UNAUTHORIZED)
           else Inr (toUserDTO user)))"

text \<open>
  \<open>findByPayload\<close> passes the result of \<open>findOne\<close> to \<open>toUserDTO\<close> unchecked. What it
  returns is an object, written \<open>Some\<close> here so that the test \<open>if (!user)\<close> of
  \<open>validateUser\<close> keeps its two branches.
\<close>

definition findByPayload :: "users_db \<Rightarrow> string \<Rightarrow> exn + UserDTO option" where
  "findByPayload db uid =
     (case toUserDTO_nullable (users_findOne (\<lambda>u. u_uid u = uid) db) of
        Inl e \<Rightarrow> Inl e
      | Inr dto \<Rightarrow> Inr (Some dto))"

section \<open>AuthService\<close>

record RegistrationStatus =
  success :: bool
  message :: string

record LoginStatus =
  accessToken :: string
  expiresIn :: string
  ls_uid :: string

text \<open>
  \<open>register\<close> returns a status in every case; the table it leaves is the one
  \<open>createUser\<close> left, or the table it found when \<open>createUser\<close> threw.
\<close>

definition register ::
  "string option \<Rightarrow> string \<Rightarrow> users_db \<Rightarrow> UserCreateDTO \<Rightarrow> RegistrationStatus \<times> users_db" where
  "register fault uid db userDto =
     (case createUser fault uid db userDto of
        Inr (created, db') \<Rightarrow> (\<lparr>success = True, message = ''user registered''\<rparr>, db')
      | Inl err \<Rightarrow>
          (\<lparr>success = False,
            message = (if exn_message err \<noteq> [] then exn_message err
                       else ''user registration failed'')\<rparr>, db))"

text \<open>
  \<open>_createToken\<close>: \<open>sign\<close> is \<open>JwtService.sign\<close> on the payload \<open>{ uid }\<close>, \<open>env\<close> is
  \<open>process.env.EXPIRESIN\<close> and \<open>DEFAULT_EXPIRESIN\<close> the constant of \<open>auth.module\<close>.
\<close>

definition createToken ::
  "(string \<Rightarrow> string) \<Rightarrow> string option \<Rightarrow> string \<Rightarrow> UserDTO \<Rightarrow> string \<times> string" where
  "createToken sign env DEFAULT_EXPIRESIN user =
     ((case env of
         None \<Rightarrow> DEFAULT_EXPIRESIN
       | Some e \<Rightarrow> (if e \<noteq> [] then e else DEFAULT_EXPIRESIN)),
      sign (d_uid user))"

definition login ::
  "(string \<Rightarrow> string) \<Rightarrow> string option \<Rightarrow> string \<Rightarrow> (string \<Rightarrow> string \<Rightarrow> bool)
     \<Rightarrow> users_db \<Rightarrow> LoginUserDTO \<Rightarrow> exn + LoginStatus" where
  "login sign env DEFAULT_EXPIRESIN comparePasswords db loginUserDto =
     (case findByLogin comparePasswords db loginUserDto of
        Inl e \<Rightarrow> Inl e
      | Inr user \<Rightarrow>
          (let token = createToken sign env DEFAULT_EXPIRESIN user
           in Inr \<lparr>accessToken = snd token, expiresIn = fst token, ls_uid = d_uid user\<rparr>))"

definition validateUser :: "users_db \<Rightarrow> string \<Rightarrow> exn + UserDTO" where
  "validateUser db uid =
     (case findByPayload db uid of
        Inl e \<Rightarrow> Inl e
      | Inr None \<Rightarrow> Inl (HttpException ''Invalid token'' UNAUTHORIZED)
      | Inr (Some user) \<Rightarrow> Inr user)"

section \<open>SupplierService\<close>

text \<open>
  Modelled from the spec: the declarations of the \<open>Supplier\<close> entity and of its two
  DTOs are not among the sources. A supplier has a numeric id, a name and contact fields
  (of a type left open); an update DTO may leave either out.
\<close>

record 'c Supplier =
  sup_id :: int
  sup_name :: string
  sup_contact :: 'c

record 'c CreateSupplierDto =
  cs_name :: string
  cs_contact :: 'c

record 'c UpdateSupplierDto =
  us_name :: "string option"
  us_contact :: "'c option"

record 'c suppliers_db =
  sup_rows :: "'c Supplier list"
  sup_next_id :: int

definition sup_findAll :: "'c suppliers_db \<Rightarrow> 'c Supplier list" where
  "sup_findAll db = sup_rows db"

definition sup_findOne :: "'c suppliers_db \<Rightarrow> int \<Rightarrow> 'c Supplier option" where
  "sup_findOne db i = find (\<lambda>s. sup_id s = i) (sup_rows db)"

definition sup_create ::
  "string option \<Rightarrow> 'c suppliers_db \<Rightarrow> 'c CreateSupplierDto \<Rightarrow> exn + ('c Supplier \<times> 'c suppliers_db)" where
  "sup_create fault db dto =
     (case fault of
        Some m \<Rightarrow> Inl (JsError m)
      | None \<Rightarrow>
          (let supplier = \<lparr>sup_id = sup_next_id db, sup_name = cs_name dto,
                           sup_contact = cs_contact dto\<rparr>
           in Inr (supplier, \<lparr>sup_rows = sup_rows db @ [supplier],
                              sup_next_id = sup_next_id db + 1\<rparr>)))"

definition sup_preload :: "'c suppliers_db \<Rightarrow> int \<Rightarrow> 'c UpdateSupplierDto \<Rightarrow> 'c Supplier option" where
  "sup_preload db i dto =
     (case find (\<lambda>s. sup_id s = i) (sup_rows db) of
        None \<Rightarrow> None
      | Some s \<Rightarrow>
          Some (s\<lparr>sup_name := (case us_name dto of None \<Rightarrow> sup_name s | Some n \<Rightarrow> n),
                  sup_contact := (case us_contact dto of None \<Rightarrow> sup_contact s | Some c \<Rightarrow> c)\<rparr>))"

definition sup_update ::
  "string option \<Rightarrow> 'c suppliers_db \<Rightarrow> int \<Rightarrow> 'c UpdateSupplierDto \<Rightarrow> exn + ('c Supplier \<times> 'c suppliers_db)" where
  "sup_update fault db i dto =
     (case sup_preload db i dto of
        None \<Rightarrow> Inl (HttpException ''Supplier not found'' NOT_FOUND)
      | Some supplier \<Rightarrow>
          (case fault of
             Some m \<Rightarrow> Inl (JsError m)
           | None \<Rightarrow>
               Inr (supplier,
                    db\<lparr>sup_rows := map (\<lambda>s. if sup_id s = sup_id supplier then supplier else s)
                                        (sup_rows db)\<rparr>)))"

text \<open>\<open>remove\<close> awaits \<open>repo.delete(id)\<close> and nothing else.\<close>

definition sup_remove :: "string option \<Rightarrow> 'c suppliers_db \<Rightarrow> int \<Rightarrow> exn + 'c suppliers_db" where
  "sup_remove fault db i =
     (case fault of
        Some m \<Rightarrow> Inl (JsError m)
      | None \<Rightarrow> Inr (db\<lparr>sup_rows := filter (\<lambda>s. sup_id s \<noteq> i) (sup_rows db)\<rparr>))"

text \<open>The message of \<open>findByCode\<close> holds the code; here it is the message without it.\<close>

definition sup_findByCode :: "'c suppliers_db \<Rightarrow> int \<Rightarrow> exn + 'c Supplier" where
  "sup_findByCode db code =
     (case find (\<lambda>s. sup_id s = code) (sup_rows db) of
        None \<Rightarrow> Inl (HttpException ''Fornecedor nao encontrado.'' NOT_FOUND)
      | Some supplier \<Rightarrow> Inr supplier)"

section \<open>DocumentsService\<close>

text \<open>
  Modelled from the spec: the declarations of \<open>DocumentEntity\<close> and \<open>DocumentFilter\<close>
  are not among the sources. A document has a numeric id, a filename, a file type, an
  upload date (a date and a time of day), an owning user and an optional product, both
  held by id and \<open>None\<close> when the join finds no row, and its content. A filter has five
  optional fields: strings for the file type, the filename and the upload date, numbers
  for the owner id and the id.
\<close>

record DocumentEntity =
  doc_id :: int
  doc_filename :: string
  doc_file_type :: string
  doc_upload_date :: "string \<times> string"
  doc_user :: "int option"
  doc_product :: "int option"
  doc_content :: string

record DocumentFilter =
  f_file_type :: "string option"
  f_user_id :: "int option"
  f_id :: "int option"
  f_filename :: "string option"
  f_upload_date :: "string option"

text \<open>JavaScript truthiness of an optional string and of an optional number.\<close>

definition truthy_str :: "string option \<Rightarrow> bool" where
  "truthy_str v = (case v of None \<Rightarrow> False | Some s \<Rightarrow> s \<noteq> [])"

definition truthy_num :: "int option \<Rightarrow> bool" where
  "truthy_num v = (case v of None \<Rightarrow> False | Some n \<Rightarrow> n \<noteq> 0)"

definition toLowerCase_char :: "char \<Rightarrow> char" where
  "toLowerCase_char c =
     (case map_of (zip ''ABCDEFGHIJKLMNOPQRSTUVWXYZ'' ''abcdefghijklmnopqrstuvwxyz'') c of
        None \<Rightarrow> c
      | Some l \<Rightarrow> l)"

definition toLowerCase :: "string \<Rightarrow> string" where
  "toLowerCase s = map toLowerCase_char s"

text \<open>
  The SQL operator \<open>subject LIKE pattern\<close>: \<open>%\<close> stands for any run of characters,
  \<open>_\<close> for any one character, and a backslash (the default escape character of MySQL,
  whose error code \<open>ER_DUP_ENTRY\<close> the service tests) makes the character after it
  literal.
\<close>

fun like :: "string \<Rightarrow> string \<Rightarrow> bool" where
  "like [] s = (s = [])"
| "like (p # ps) [] = (p = CHR ''%'' \<and> like ps [])"
| "like (p # ps) (c # cs) =
     (if p = CHR ''%'' then like ps (c # cs) \<or> like (p # ps) cs
      else if p = CHR ''_'' then like ps cs
      else if p = CHR 0x5C then
        (case ps of [] \<Rightarrow> c = p \<and> cs = [] | e # ps' \<Rightarrow> c = e \<and> like ps' cs)
      else p = c \<and> like ps cs)"

text \<open>\<open>DATE(doc.upload_date)\<close>: the date of the timestamp.\<close>

definition DATE :: "string \<times> string \<Rightarrow> string" where
  "DATE ts = fst ts"

text \<open>\<open>query.andWhere\<close> adds a condition to the conjunction the query holds.\<close>

definition andWhere ::
  "(DocumentEntity \<Rightarrow> bool) \<Rightarrow> (DocumentEntity \<Rightarrow> bool) \<Rightarrow> (DocumentEntity \<Rightarrow> bool)" where
  "andWhere query cond = (\<lambda>doc. query doc \<and> cond doc)"

text \<open>
  \<open>toDocumentDTO\<close> of \<open>documents/mapper.ts\<close> is not among the sources: it is a
  parameter. \<open>getMany\<close> returns the rows that satisfy the query, in table order.
\<close>

definition findWithFilters ::
  "(DocumentEntity \<Rightarrow> 'dto) \<Rightarrow> DocumentEntity list \<Rightarrow> DocumentFilter \<Rightarrow> 'dto list" where
  "findWithFilters toDocumentDTO docs filters =
     (let q0 = (\<lambda>doc. True);
          q1 = (if truthy_str (f_file_type filters)
                then andWhere q0 (\<lambda>doc. doc_file_type doc = the (f_file_type filters))
                else q0);
          q2 = (if truthy_num (f_user_id filters)
                then andWhere q1 (\<lambda>doc. doc_user doc = Some (the (f_user_id filters)))
                else q1);
          q3 = (if truthy_num (f_id filters)
                then andWhere q2 (\<lambda>doc. doc_id doc = the (f_id filters))
                else q2);
          q4 = (if truthy_str (f_filename filters)
                then andWhere q3 (\<lambda>doc. like (''%'' @ toLowerCase (the (f_filename filters)) @ ''%'')
                                               (toLowerCase (doc_filename doc)))
                else q3);
          q5 = (if truthy_str (f_upload_date filters)
                then andWhere q4 (\<lambda>doc. DATE (doc_upload_date doc) = the (f_upload_date filters))
                else q4)
      in map toDocumentDTO (filter q5 docs))"

definition findById ::
  "(DocumentEntity \<Rightarrow> 'dto) \<Rightarrow> DocumentEntity list \<Rightarrow> int \<Rightarrow> exn + 'dto" where
  "findById toDocumentDTO docs i =
     (case find (\<lambda>d. doc_id d = i) docs of
        None \<Rightarrow> Inl (HttpException ''Document not found'' NOT_FOUND)
      | Some doc \<Rightarrow> Inr (toDocumentDTO doc))"

definition getDocumentById :: "DocumentEntity list \<Rightarrow> int \<Rightarrow> DocumentEntity option" where
  "getDocumentById docs i = find (\<lambda>d. doc_id d = i) docs"

section \<open>ProductEntryService.generateEntryId\<close>

text \<open>\<open>s.split(sep)\<close> with a one-character separator: one piece more than separators.\<close>

fun split_on :: "char \<Rightarrow> string \<Rightarrow> string list" where
  "split_on sep [] = [[]]"
| "split_on sep (c # cs) =
     (if c = sep then [] # split_on sep cs
      else (case split_on sep cs of
              [] \<Rightarrow> [[c]]
            | w # ws \<Rightarrow> (c # w) # ws))"

text \<open>\<open>word.charAt(0)\<close>: the first character as a string, the empty string if none.\<close>

definition charAt0 :: "string \<Rightarrow> string" where
  "charAt0 word = take 1 word"

definition toUpperCase_char :: "char \<Rightarrow> char" where
  "toUpperCase_char c =
     (case map_of (zip ''abcdefghijklmnopqrstuvwxyz'' ''ABCDEFGHIJKLMNOPQRSTUVWXYZ'') c of
        None \<Rightarrow> c
      | Some u \<Rightarrow> u)"

definition toUpperCase :: "string \<Rightarrow> string" where
  "toUpperCase s = map toUpperCase_char s"

definition is_upper :: "char \<Rightarrow> bool" where
  "is_upper c = (c \<in> set ''ABCDEFGHIJKLMNOPQRSTUVWXYZ'')"

definition is_lower :: "char \<Rightarrow> bool" where
  "is_lower c = (c \<in> set ''abcdefghijklmnopqrstuvwxyz'')"

text \<open>The characters the spec allows in an entry id.\<close>

definition id_char :: "char \<Rightarrow> bool" where
  "id_char c = (is_upper c \<or> is_digit c)"

text \<open>\<open>n.toString()\<close> of a natural number: its decimal digits.\<close>

definition digit_char :: "nat \<Rightarrow> char" where
  "digit_char d = ''0123456789'' ! d"

fun toString :: "nat \<Rightarrow> string" where
  "toString n =
     (if n < 10 then [digit_char n] else toString (n div 10) @ [digit_char (n mod 10)])"

definition padStart :: "nat \<Rightarrow> char \<Rightarrow> string \<Rightarrow> string" where
  "padStart targetLength fill s = replicate (targetLength - length s) fill @ s"

definition initials :: "string \<Rightarrow> string" where
  "initials productName = toUpperCase (concat (map charAt0 (split_on CHR '' '' productName)))"

text \<open>
  The two random choices are parameters: \<open>r\<close> is \<open>Math.floor(Math.random() * 9999)\<close>,
  a number from 0 to 9998, and \<open>shuffle\<close> is the order in which \<open>sort\<close> with the random
  comparator leaves the characters.
\<close>

definition generateEntryId :: "string \<Rightarrow> nat \<Rightarrow> (string \<Rightarrow> string) \<Rightarrow> string" where
  "generateEntryId productName r shuffle =
     (let randomNum = padStart 4 CHR ''0'' (toString r);
          combined = shuffle (initials productName @ randomNum)
      in take 6 combined)"

text \<open>The words of a name that contribute an initial: the non-empty pieces.\<close>

definition name_words :: "string \<Rightarrow> string list" where
  "name_words productName = filter (\<lambda>w. w \<noteq> []) (split_on CHR '' '' productName)"

section \<open>ProductEntryComponent.onFileSelected\<close>

record File =
  file_name :: string
  file_type :: string
  file_size :: nat

record UploadFile =
  up_name :: string
  up_base64 :: "string option"

text \<open>
  The fields of the component the handler reads and writes; \<open>alerts\<close> are the messages
  shown by \<open>alert\<close>, oldest first.
\<close>

record component =
  uploadFile :: "UploadFile option"
  fileError :: bool
  file_size_error :: bool
  alerts :: "string list"

definition MAX_FILE_SIZE :: nat where
  "MAX_FILE_SIZE = 30 * 1024"

text \<open>\<open>xs[1]\<close>: \<open>undefined\<close> when the array is shorter.\<close>

definition index1 :: "'a list \<Rightarrow> 'a option" where
  "index1 xs = (if 1 < length xs then Some (xs ! 1) else None)"

text \<open>
  \<open>readAsDataURL\<close> gives what the \<open>FileReader\<close> read, \<open>None\<close> when the read fails and
  \<open>onload\<close> is never called; the step covers the handler and that callback. \<open>files\<close>
  is \<open>input.files\<close>. The alert message is written without its accent.
\<close>

definition onFileSelected ::
  "(File \<Rightarrow> string option) \<Rightarrow> File list \<Rightarrow> component \<Rightarrow> component" where
  "onFileSelected readAsDataURL files st =
     (case files of
        [] \<Rightarrow> st
      | file # rest \<Rightarrow>
          (if file_type file \<noteq> ''application/pdf''
           then st\<lparr>alerts := alerts st @ [''Apenas arquivos PDF sao permitidos!'']\<rparr>
           else if file_size file > MAX_FILE_SIZE
           then st\<lparr>file_size_error := True\<rparr>
           else (case readAsDataURL file of
                   None \<Rightarrow> st\<lparr>file_size_error := False\<rparr>
                 | Some result \<Rightarrow>
                     st\<lparr>file_size_error := False,
                        uploadFile := Some \<lparr>up_name = file_name file,
                                            up_base64 = index1 (split_on CHR '','' result)\<rparr>\<rparr>)))"

section \<open>Outcomes and sample data\<close>

text \<open>A call fails with a status when it throws an \<open>HttpException\<close> of that status.\<close>

definition fails_with :: "HttpStatus \<Rightarrow> exn + 'a \<Rightarrow> bool" where
  "fails_with st r = (case r of Inl (HttpException m s) \<Rightarrow> s = st | _ \<Rightarrow> False)"

definition ana :: UserEntity where
  "ana = \<lparr>u_id = 1, u_uid = ''u-1'', u_name = ''Ana'', u_email = ''ana@x.org'',
          u_password = ''h1'', u_cpf = ''12345678901''\<rparr>"

definition bob :: UserEntity where
  "bob = \<lparr>u_id = 2, u_uid = ''u-2'', u_name = ''Bob'', u_email = ''bob@x.org'',
          u_password = ''h2'', u_cpf = ''98765432100''\<rparr>"

definition ana_dto :: UserCreateDTO where
  "ana_dto = \<lparr>c_name = ''Ana'', c_email = ''ana@x.org'', c_password = ''h1'',
              c_cpf = ''123.456.789-01''\<rparr>"

definition acme :: "unit Supplier" where
  "acme = \<lparr>sup_id = 1, sup_name = ''Acme'', sup_contact = ()\<rparr>"

definition invoice_pdf :: File where
  "invoice_pdf = \<lparr>file_name = ''nf.pdf'', file_type = ''application/pdf'', file_size = 2048\<rparr>"

definition fresh :: component where
  "fresh = \<lparr>uploadFile = None, fileError = False, file_size_error = False, alerts = []\<rparr>"

text \<open>The characters with a meaning of their own in a \<open>LIKE\<close> pattern.\<close>

definition like_special :: "char \<Rightarrow> bool" where
  "like_special c = (c \<in> set [CHR ''%'', CHR ''_'', CHR 0x5C])"

text \<open>
  The filter query in the spec's words: a document matches when it satisfies the
  predicate of every filter that is provided, the filename predicate being a
  case-insensitive substring test.
\<close>

definition spec_matches :: "DocumentFilter \<Rightarrow> DocumentEntity \<Rightarrow> bool" where
  "spec_matches filters doc =
     ((case f_file_type filters of None \<Rightarrow> True | Some t \<Rightarrow> doc_file_type doc = t)
      \<and> (case f_user_id filters of None \<Rightarrow> True | Some u \<Rightarrow> doc_user doc = Some u)
      \<and> (case f_id filters of None \<Rightarrow> True | Some i \<Rightarrow> doc_id doc = i)
      \<and> (case f_filename filters of
            None \<Rightarrow> True
          | Some n \<Rightarrow> sublist (toLowerCase n) (toLowerCase (doc_filename doc)))
      \<and> (case f_upload_date filters of
            None \<Rightarrow> True
          | Some d \<Rightarrow> DATE (doc_upload_date doc) = d))"

definition spec_filter_query ::
  "(DocumentEntity \<Rightarrow> 'dto) \<Rightarrow> DocumentEntity list \<Rightarrow> DocumentFilter \<Rightarrow> 'dto list" where
  "spec_filter_query toDocumentDTO docs filters = map toDocumentDTO (filter (spec_matches filters) docs)"

text \<open>A filter with its falsy values (the empty string, the number 0) taken out.\<close>

definition drop_falsy :: "DocumentFilter \<Rightarrow> DocumentFilter" where
  "drop_falsy filters =
     \<lparr>f_file_type = (if truthy_str (f_file_type filters) then f_file_type filters else None),
      f_user_id = (if truthy_num (f_user_id filters) then f_user_id filters else None),
      f_id = (if truthy_num (f_id filters) then f_id filters else None),
      f_filename = (if truthy_str (f_filename filters) then f_filename filters else None),
      f_upload_date = (if truthy_str (f_upload_date filters) then f_upload_date filters else None)\<rparr>"

definition no_filters :: DocumentFilter where
  "no_filters = \<lparr>f_file_type = None, f_user_id = None, f_id = None, f_filename = None,
                 f_upload_date = None\<rparr>"

definition nf_doc :: DocumentEntity where
  "nf_doc = \<lparr>doc_id = 1, doc_filename = ''Invoice-7.pdf'', doc_file_type = ''pdf'',
             doc_upload_date = (''2024-05-02'', ''10:30:00''), doc_user = Some 1,
             doc_product = None, doc_content = ''''\<rparr>"

definition memo_doc :: DocumentEntity where
  "memo_doc = \<lparr>doc_id = 2, doc_filename = ''memo.pdf'', doc_file_type = ''pdf'',
             doc_upload_date = (''2024-05-03'', ''08:00:00''), doc_user = Some 1,
             doc_product = None, doc_content = ''''\<rparr>"

section \<open>Lookups in a table\<close>

lemma find_absent: "i \<notin> f ` set xs \<Longrightarrow> find (\<lambda>x. f x = i) xs = None"
  by (auto simp: find_None_iff)

lemma filter_absent: "i \<notin> f ` set xs \<Longrightarrow> filter (\<lambda>x. f x \<noteq> i) xs = xs"
  by (induction xs) auto

section \<open>Login\<close>

text \<open>
  Claim C1, as the spec has it: a login for an email no user has fails with NotFound.
  The service throws \<open>UNAUTHORIZED\<close> there, with the message \<open>User not found\<close>: on an
  empty table the call does not fail with \<open>NOT_FOUND\<close>.
\<close>

theorem findByLogin_missing_email_counterexample:
  "findByLogin (=) \<lparr>rows = [], next_id = 1\<rparr> \<lparr>l_email = ''ana@x.org'', l_password = ''pw''\<rparr>
     = Inl (HttpException ''User not found'' UNAUTHORIZED)
   \<and> \<not> fails_with NOT_FOUND
        (findByLogin (=) \<lparr>rows = [], next_id = 1\<rparr> \<lparr>l_email = ''ana@x.org'', l_password = ''pw''\<rparr>)"
  by (simp add: findByLogin_def users_findOne_def fails_with_def)

text \<open>
  Claim C1, amended: \<open>findByLogin\<close> fails with Unauthorized (message \<open>User not found\<close>)
  when no user has the email, fails with Unauthorized (message \<open>Invalid credentials\<close>)
  when the user of that email exists and the password comparison fails, and otherwise
  returns that user's DTO; \<open>login\<close> fails the same way in the first two cases and in the
  third returns a status whose token is signed for the user's uid.
\<close>

theorem findByLogin_results:
  "(find (\<lambda>u. u_email u = l_email lg) (rows db) = None \<longrightarrow>
      findByLogin cmp db lg = Inl (HttpException ''User not found'' UNAUTHORIZED)
      \<and> login sign env dflt cmp db lg = Inl (HttpException ''User not found'' UNAUTHORIZED))
   \<and> (find (\<lambda>u. u_email u = l_email lg) (rows db) = Some user
        \<and> \<not> cmp (u_password user) (l_password lg) \<longrightarrow>
      findByLogin cmp db lg = Inl (HttpException ''Invalid credentials'' UNAUTHORIZED)
      \<and> login sign env dflt cmp db lg = Inl (HttpException ''Invalid credentials'' UNAUTHORIZED))
   \<and> (find (\<lambda>u. u_email u = l_email lg) (rows db) = Some user
        \<and> cmp (u_password user) (l_password lg) \<longrightarrow>
      findByLogin cmp db lg = Inr (toUserDTO user)
      \<and> (\<exists>st. login sign env dflt cmp db lg = Inr st \<and> accessToken st = sign (u_uid user)
               \<and> ls_uid st = u_uid user))"
  by (simp add: findByLogin_def login_def users_findOne_def createToken_def toUserDTO_def)

theorem findByLogin_results_witness:
  "findByLogin (=) \<lparr>rows = [ana], next_id = 2\<rparr> \<lparr>l_email = ''bob@x.org'', l_password = ''h1''\<rparr>
     = Inl (HttpException ''User not found'' UNAUTHORIZED)
   \<and> findByLogin (=) \<lparr>rows = [ana], next_id = 2\<rparr> \<lparr>l_email = ''ana@x.org'', l_password = ''zz''\<rparr>
     = Inl (HttpException ''Invalid credentials'' UNAUTHORIZED)
   \<and> findByLogin (=) \<lparr>rows = [ana], next_id = 2\<rparr> \<lparr>l_email = ''ana@x.org'', l_password = ''h1''\<rparr>
     = Inr (toUserDTO ana)"
  using
    findByLogin_results [of "\<lparr>l_email = ''bob@x.org'', l_password = ''h1''\<rparr>"
      "\<lparr>rows = [ana], next_id = 2\<rparr>" "(=)" id None "''60s''" ana]
    findByLogin_results [of "\<lparr>l_email = ''ana@x.org'', l_password = ''zz''\<rparr>"
      "\<lparr>rows = [ana], next_id = 2\<rparr>" "(=)" id None "''60s''" ana]
    findByLogin_results [of "\<lparr>l_email = ''ana@x.org'', l_password = ''h1''\<rparr>"
      "\<lparr>rows = [ana], next_id = 2\<rparr>" "(=)" id None "''60s''" ana]
  by (simp add: ana_def)

section \<open>Token validation\<close>

text \<open>
  Claim C8 at a uid no user has: \<open>findByPayload\<close> hands the \<open>null\<close> of \<open>findOne\<close> to
  \<open>toUserDTO\<close>, which throws a \<open>TypeError\<close> before \<open>validateUser\<close> can test its result,
  so the call does not fail with Unauthorized. For the uid of a stored user the DTO of
  that user is returned.
\<close>

theorem validateUser_absent_uid_TypeError:
  "validateUser \<lparr>rows = [ana], next_id = 2\<rparr> ''u-9''
     = Inl (TypeError ''Cannot read properties of null'')
   \<and> \<not> fails_with UNAUTHORIZED (validateUser \<lparr>rows = [ana], next_id = 2\<rparr> ''u-9'')
   \<and> validateUser \<lparr>rows = [ana], next_id = 2\<rparr> ''u-1'' = Inr (toUserDTO ana)"
  by (simp add: validateUser_def findByPayload_def toUserDTO_nullable_def users_findOne_def
      fails_with_def ana_def)

section \<open>Registration\<close>

lemma createUser_success:
  "createUser fault uid db dto = Inr (r, db') \<Longrightarrow>
   find (\<lambda>u. u_email u = c_email dto) (rows db) = None
   \<and> fault = None
   \<and> rows db' = rows db @ [\<lparr>u_id = next_id db, u_uid = uid, u_name = c_name dto,
                            u_email = c_email dto, u_password = c_password dto,
                            u_cpf = strip_non_digits (c_cpf dto)\<rparr>]"
  by (auto simp: createUser_def users_findOne_def users_save_new_def mapUserDTO_def Let_def
      split: option.splits sum.splits)

lemma register_success:
  "register fault uid db dto = (st, db') \<Longrightarrow> success st \<Longrightarrow>
   \<exists>r. createUser fault uid db dto = Inr (r, db')"
  by (auto simp: register_def split: sum.splits)

lemma register_ok_one_row:
  assumes "success (fst (register fault uid d dto'))"
  shows "length (filter (\<lambda>u. u_email u = c_email dto') (rows (snd (register fault uid d dto')))) = 1"
proof -
  obtain st d' where reg: "register fault uid d dto' = (st, d')" by (cases "register fault uid d dto'")
  with assms have "success st" by simp
  from register_success [OF reg this] obtain r where c: "createUser fault uid d dto' = Inr (r, d')"
    by blast
  from createUser_success [OF c]
  have none: "find (\<lambda>u. u_email u = c_email dto') (rows d) = None"
    and rws: "rows d' = rows d @ [\<lparr>u_id = next_id d, u_uid = uid, u_name = c_name dto',
                            u_email = c_email dto', u_password = c_password dto',
                            u_cpf = strip_non_digits (c_cpf dto')\<rparr>]"
    by simp_all
  have "filter (\<lambda>u. u_email u = c_email dto') (rows d) = []"
    using none by (auto simp: find_None_iff filter_empty_conv)
  then show ?thesis using rws reg by simp
qed

text \<open>
  Claim C3: a registration with an email that some row of the table already holds
  returns the failure status \<open>{success: false, message: 'User already exists'}\<close> and
  leaves the table as it was, so no second row of that email is stored. In general
  \<open>register\<close> always returns a status: it reports failure exactly when \<open>createUser\<close>
  threw, whatever was thrown, and then the table is unchanged and the message is not
  empty; and after a registration that succeeded exactly one row holds the email.
\<close>

theorem register_duplicate_email:
  assumes "c_email dto \<in> u_email ` set (rows db)"
  shows "register fault uid db dto
           = (\<lparr>success = False, message = ''User already exists''\<rparr>, db)
    \<and> (\<forall>fault uid d dto'.
          success (fst (register fault uid d dto')) = (\<not> isl (createUser fault uid d dto'))
          \<and> (isl (createUser fault uid d dto') \<longrightarrow>
               snd (register fault uid d dto') = d
               \<and> message (fst (register fault uid d dto')) \<noteq> [])
          \<and> (success (fst (register fault uid d dto')) \<longrightarrow>
               length (filter (\<lambda>u. u_email u = c_email dto')
                         (rows (snd (register fault uid d dto')))) = 1))"
proof -
  from assms have found: "find (\<lambda>u. u_email u = c_email dto) (rows db) \<noteq> None"
    by (auto simp: find_None_iff)
  have one: "register fault uid db dto
               = (\<lparr>success = False, message = ''User already exists''\<rparr>, db)"
    using found by (auto simp: register_def createUser_def users_findOne_def split: option.splits)
  have two: "\<forall>fault uid d dto'.
          success (fst (register fault uid d dto')) = (\<not> isl (createUser fault uid d dto'))
          \<and> (isl (createUser fault uid d dto') \<longrightarrow>
               snd (register fault uid d dto') = d
               \<and> message (fst (register fault uid d dto')) \<noteq> [])"
    by (auto simp: register_def split: sum.splits)
  from one two register_ok_one_row show ?thesis by blast
qed

theorem register_duplicate_email_witness:
  "register None ''u-3'' \<lparr>rows = [ana, bob], next_id = 3\<rparr> (ana_dto\<lparr>c_name := ''Mallory''\<rparr>)
     = (\<lparr>success = False, message = ''User already exists''\<rparr>, \<lparr>rows = [ana, bob], next_id = 3\<rparr>)
   \<and> register None ''u-1'' \<lparr>rows = [], next_id = 1\<rparr> ana_dto
     = (\<lparr>success = True, message = ''user registered''\<rparr>, \<lparr>rows = [ana], next_id = 2\<rparr>)"
proof -
  have m: "c_email (ana_dto\<lparr>c_name := ''Mallory''\<rparr>) \<in> u_email ` set (rows \<lparr>rows = [ana, bob], next_id = 3\<rparr>)"
    by (simp add: ana_dto_def ana_def)
  have h: "register None ''u-1'' \<lparr>rows = [], next_id = 1\<rparr> ana_dto
     = (\<lparr>success = True, message = ''user registered''\<rparr>, \<lparr>rows = [ana], next_id = 2\<rparr>)"
    by (simp add: register_def createUser_def users_findOne_def users_save_new_def mapUserDTO_def
        ana_def ana_dto_def strip_non_digits_def is_digit_def toUserDTO_def Let_def)
  from register_duplicate_email [OF m, of None "''u-3''"] h
  show ?thesis by blast
qed

section \<open>Ids that are not in the store\<close>

text \<open>
  Claim C6, as the spec has it: deleting an id that is absent fails with NotFound.
  \<open>SupplierService.remove\<close> on an empty table returns normally and leaves the table
  as it was.
\<close>

theorem remove_absent_id_counterexample:
  "sup_remove None (\<lparr>sup_rows = [], sup_next_id = 1\<rparr> :: unit suppliers_db) 5
     = Inr \<lparr>sup_rows = [], sup_next_id = 1\<rparr>
   \<and> \<not> fails_with NOT_FOUND
        (sup_remove None (\<lparr>sup_rows = [], sup_next_id = 1\<rparr> :: unit suppliers_db) 5)"
  by (simp add: sup_remove_def fails_with_def)

text \<open>
  Claim C6, amended: for an id that is absent from the store, the updates of the
  supplier and user services, \<open>findByCode\<close> of the supplier service and \<open>findById\<close> of the
  document service fail with NotFound; \<open>getUser\<close> fails with BadRequest; \<open>findOne\<close> of the
  supplier service and \<open>getDocumentById\<close> return \<open>null\<close>; and the deletes of the supplier
  and user services, when the database accepts the statement, return normally and leave
  the store unchanged.
\<close>

theorem absent_id_results:
  assumes "i \<notin> sup_id ` set (sup_rows sdb)" and "i \<notin> u_id ` set (rows udb)"
    and "i \<notin> doc_id ` set docs"
  shows "sup_update fault sdb i sdto = Inl (HttpException ''Supplier not found'' NOT_FOUND)
    \<and> sup_findByCode sdb i = Inl (HttpException ''Fornecedor nao encontrado.'' NOT_FOUND)
    \<and> updateUser fault udb i udto = Inl (HttpException ''User not found'' NOT_FOUND)
    \<and> findById toDocumentDTO docs i = Inl (HttpException ''Document not found'' NOT_FOUND)
    \<and> getUser udb i = Inl (HttpException ''User not found'' BAD_REQUEST)
    \<and> sup_findOne sdb i = None
    \<and> getDocumentById docs i = None
    \<and> sup_remove None sdb i = Inr sdb
    \<and> deleteUser None udb i = Inr udb"
  using find_absent [OF assms(1)] find_absent [OF assms(2)] find_absent [OF assms(3)]
    filter_absent [OF assms(1)] filter_absent [OF assms(2)]
  by (simp add: sup_update_def sup_preload_def sup_findByCode_def updateUser_def users_preload_def
      findById_def getUser_def users_findOne_def sup_findOne_def getDocumentById_def
      sup_remove_def deleteUser_def users_delete_def)

theorem absent_id_results_witness:
  "sup_update None \<lparr>sup_rows = [acme], sup_next_id = 2\<rparr> 7 \<lparr>us_name = Some ''B'', us_contact = None\<rparr>
     = Inl (HttpException ''Supplier not found'' NOT_FOUND)
   \<and> updateUser None \<lparr>rows = [ana], next_id = 2\<rparr> 7 ana_dto
     = Inl (HttpException ''User not found'' NOT_FOUND)
   \<and> sup_remove None \<lparr>sup_rows = [acme], sup_next_id = 2\<rparr> 7
     = Inr \<lparr>sup_rows = [acme], sup_next_id = 2\<rparr>
   \<and> deleteUser None \<lparr>rows = [ana], next_id = 2\<rparr> 7 = Inr \<lparr>rows = [ana], next_id = 2\<rparr>"
  using absent_id_results [of 7 "\<lparr>sup_rows = [acme], sup_next_id = 2\<rparr>"
      "\<lparr>rows = [ana], next_id = 2\<rparr>" "[]" None "\<lparr>us_name = Some ''B'', us_contact = None\<rparr>"
      ana_dto id]
  by (simp add: acme_def ana_def)

section \<open>Selecting a file\<close>

text \<open>
  Claim C9: the handler changes \<open>uploadFile\<close> only for a first file of type
  \<open>application/pdf\<close> and of at most 30 * 1024 bytes; a first file of another type gets an
  alert and nothing else changes; a PDF above the limit sets \<open>file_size_error\<close> and
  nothing else changes; and a PDF within the limit that the reader has read becomes the
  pending upload.
\<close>

theorem onFileSelected_guard:
  "(uploadFile (onFileSelected rd files st) \<noteq> uploadFile st \<longrightarrow>
      files \<noteq> [] \<and> file_type (hd files) = ''application/pdf''
      \<and> file_size (hd files) \<le> 30 * 1024)
   \<and> (files \<noteq> [] \<and> file_type (hd files) \<noteq> ''application/pdf'' \<longrightarrow>
        onFileSelected rd files st
          = st\<lparr>alerts := alerts st @ [''Apenas arquivos PDF sao permitidos!'']\<rparr>)
   \<and> (files \<noteq> [] \<and> file_type (hd files) = ''application/pdf''
        \<and> 30 * 1024 < file_size (hd files) \<longrightarrow>
        onFileSelected rd files st = st\<lparr>file_size_error := True\<rparr>)
   \<and> (files \<noteq> [] \<and> file_type (hd files) = ''application/pdf''
        \<and> file_size (hd files) \<le> 30 * 1024 \<longrightarrow>
        (\<forall>result. rd (hd files) = Some result \<longrightarrow>
           uploadFile (onFileSelected rd files st)
             = Some \<lparr>up_name = file_name (hd files),
                     up_base64 = index1 (split_on CHR '','' result)\<rparr>))"
  by (cases files) (auto simp: onFileSelected_def MAX_FILE_SIZE_def split: option.splits)

theorem onFileSelected_guard_witness:
  "uploadFile (onFileSelected (\<lambda>f. Some ''data:application/pdf;base64,QUJD'') [invoice_pdf] fresh)
     = Some \<lparr>up_name = ''nf.pdf'', up_base64 = Some ''QUJD''\<rparr>
   \<and> onFileSelected (\<lambda>f. Some ''data:text/plain;base64,QUJD'')
        [invoice_pdf\<lparr>file_type := ''text/plain''\<rparr>] fresh
     = fresh\<lparr>alerts := [''Apenas arquivos PDF sao permitidos!'']\<rparr>
   \<and> onFileSelected (\<lambda>f. Some ''data:application/pdf;base64,QUJD'')
        [invoice_pdf\<lparr>file_size := 30721\<rparr>] fresh
     = fresh\<lparr>file_size_error := True\<rparr>"
  using
    onFileSelected_guard [of "\<lambda>f. Some ''data:application/pdf;base64,QUJD''" "[invoice_pdf]" fresh]
    onFileSelected_guard [of "\<lambda>f. Some ''data:text/plain;base64,QUJD''"
      "[invoice_pdf\<lparr>file_type := ''text/plain''\<rparr>]" fresh]
    onFileSelected_guard [of "\<lambda>f. Some ''data:application/pdf;base64,QUJD''"
      "[invoice_pdf\<lparr>file_size := 30721\<rparr>]" fresh]
  by (simp add: invoice_pdf_def fresh_def index1_def)

section \<open>The national id\<close>

lemma digits_strip: "list_all is_digit (strip_non_digits s)"
  by (simp add: strip_non_digits_def list_all_iff)

lemma strip_digits_id: "list_all is_digit s \<Longrightarrow> strip_non_digits s = s"
  by (simp add: strip_non_digits_def list_all_iff)

lemma eleven_chars:
  assumes "length s = 11"
  obtains a b c d e f g h i j k where "s = [a, b, c, d, e, f, g, h, i, j, k]"
  using assms by (auto simp: length_Suc_conv eval_nat_numeral)

lemma replace_cpf_mask_eleven:
  assumes "length s = 11" and "list_all is_digit s"
  shows "replace_cpf_mask s
           = take 3 s @ ''.'' @ take 3 (drop 3 s) @ ''.'' @ take 3 (drop 6 s) @ ''-'' @ drop 9 s"
proof -
  from assms(1) obtain a b c d e f g h i j k where s: "s = [a, b, c, d, e, f, g, h, i, j, k]"
    by (rule eleven_chars)
  show ?thesis using assms(2) unfolding s by simp
qed

lemma masked_eleven:
  assumes "length s = 11" and "list_all is_digit s"
  shows "is_masked_cpf (replace_cpf_mask s)" and "strip_non_digits (replace_cpf_mask s) = s"
proof -
  from assms(1) obtain a b c d e f g h i j k where s: "s = [a, b, c, d, e, f, g, h, i, j, k]"
    by (rule eleven_chars)
  show "is_masked_cpf (replace_cpf_mask s)"
    using assms(2) unfolding s by (simp add: is_masked_cpf_def)
  have "\<not> is_digit CHR ''.''" "\<not> is_digit CHR ''-''" by (simp_all add: is_digit_def)
  then show "strip_non_digits (replace_cpf_mask s) = s"
    using assms(2) unfolding s by (simp add: strip_non_digits_def)
qed

lemma toUserDTO_masked:
  assumes "length (strip_non_digits (u_cpf entity)) = 11"
  shows "is_masked_cpf (d_cpf (toUserDTO entity))"
    and "strip_non_digits (d_cpf (toUserDTO entity)) = strip_non_digits (u_cpf entity)"
  using masked_eleven [OF assms digits_strip] by (simp_all add: toUserDTO_def)

lemma createUser_saved:
  assumes "createUser fault uid db dto = Inr (r, db')"
  shows "\<exists>saved \<in> set (rows db'). r = toUserDTO saved \<and> u_cpf saved = strip_non_digits (c_cpf dto)"
  using assms
  by (auto simp: createUser_def users_findOne_def users_save_new_def mapUserDTO_def Let_def
      split: option.splits sum.splits)

lemma updateUser_saved:
  assumes "updateUser fault db i dto = Inr (r, db')"
  shows "\<exists>saved \<in> set (rows db'). r = toUserDTO saved \<and> u_cpf saved = strip_non_digits (c_cpf dto)"
proof -
  from assms obtain u where f: "find (\<lambda>u. u_id u = i) (rows db) = Some u"
    by (auto simp: updateUser_def users_preload_def split: option.splits)
  define e where "e = u\<lparr>u_name := c_name dto, u_email := c_email dto,
                          u_password := c_password dto, u_cpf := strip_non_digits (c_cpf dto)\<rparr>"
  from f have mem: "u \<in> set (rows db)" and uid: "u_id u = i"
    by (auto simp: find_Some_iff)
  from assms f have r: "r = toUserDTO e"
    and rws: "rows db' = map (\<lambda>x. if u_id x = u_id e then e else x) (rows db)"
    by (auto simp: updateUser_def users_preload_def users_save_existing_def mapUserDTO_def e_def
        split: option.splits sum.splits)
  have "u_id e = u_id u" by (simp add: e_def)
  with mem rws have "e \<in> set (rows db')" by force
  moreover have "u_cpf e = strip_non_digits (c_cpf dto)" by (simp add: e_def)
  ultimately show ?thesis using r by blast
qed

text \<open>
  Claim C7, amended: whenever \<open>createUser\<close> or \<open>updateUser\<close> succeeds, the row it
  saved holds the CPF of the input with every non-digit removed, and the DTO returned is
  the mapper's DTO of that row; when that CPF has exactly eleven digits, and for every
  stored user whose CPF holds exactly eleven digits, the DTO shows it in the format
  \<open>000.000.000-00\<close> with the same digits, whatever punctuation the input had.
\<close>

theorem cpf_stored_digits_and_masked:
  assumes "createUser fault uid db dto = Inr (r, db') \<or> updateUser fault db i dto = Inr (r, db')"
  shows "(\<exists>saved \<in> set (rows db').
           r = toUserDTO saved
           \<and> u_cpf saved = strip_non_digits (c_cpf dto)
           \<and> list_all is_digit (u_cpf saved)
           \<and> (length (u_cpf saved) = 11 \<longrightarrow>
                is_masked_cpf (d_cpf r) \<and> strip_non_digits (d_cpf r) = u_cpf saved))
    \<and> (length (strip_non_digits (u_cpf entity)) = 11 \<longrightarrow>
         is_masked_cpf (d_cpf (toUserDTO entity))
         \<and> strip_non_digits (d_cpf (toUserDTO entity)) = strip_non_digits (u_cpf entity))"
proof -
  from assms obtain saved where s: "saved \<in> set (rows db')" "r = toUserDTO saved"
    "u_cpf saved = strip_non_digits (c_cpf dto)"
    using createUser_saved updateUser_saved by blast
  have d: "list_all is_digit (u_cpf saved)" using s(3) digits_strip by simp
  have "length (u_cpf saved) = 11 \<longrightarrow>
          is_masked_cpf (d_cpf r) \<and> strip_non_digits (d_cpf r) = u_cpf saved"
    using toUserDTO_masked [of saved] strip_digits_id [OF d] s(2) by simp
  with s d have "\<exists>saved \<in> set (rows db').
           r = toUserDTO saved
           \<and> u_cpf saved = strip_non_digits (c_cpf dto)
           \<and> list_all is_digit (u_cpf saved)
           \<and> (length (u_cpf saved) = 11 \<longrightarrow>
                is_masked_cpf (d_cpf r) \<and> strip_non_digits (d_cpf r) = u_cpf saved)"
    by blast
  then show ?thesis using toUserDTO_masked [of entity] by blast
qed

text \<open>
  Claim C7, as the spec has it: the DTO shows the CPF masked for every input. A user
  created with the CPF \<open>123.456\<close> is stored with \<open>123456\<close>, and the DTO shows
  \<open>123456\<close>: the mask is applied to a run of eleven digits only.
\<close>

theorem cpf_short_counterexample:
  "map_sum id (d_cpf \<circ> fst) (createUser None ''u-1'' \<lparr>rows = [], next_id = 1\<rparr> (ana_dto\<lparr>c_cpf := ''123.456''\<rparr>))
     = Inr ''123456''
   \<and> \<not> is_masked_cpf ''123456''"
  by (simp add: createUser_def users_findOne_def users_save_new_def mapUserDTO_def
      ana_dto_def strip_non_digits_def is_digit_def toUserDTO_def Let_def is_masked_cpf_def)

theorem cpf_stored_digits_and_masked_witness:
  "createUser None ''u-1'' \<lparr>rows = [], next_id = 1\<rparr> ana_dto
     = Inr (toUserDTO ana, \<lparr>rows = [ana], next_id = 2\<rparr>)
   \<and> u_cpf ana = ''12345678901'' \<and> d_cpf (toUserDTO ana) = ''123.456.789-01''
   \<and> is_masked_cpf (d_cpf (toUserDTO ana))"
proof -
  have h: "createUser None ''u-1'' \<lparr>rows = [], next_id = 1\<rparr> ana_dto
     = Inr (toUserDTO ana, \<lparr>rows = [ana], next_id = 2\<rparr>)"
    by (simp add: createUser_def users_findOne_def users_save_new_def mapUserDTO_def
      ana_dto_def ana_def strip_non_digits_def is_digit_def Let_def)
  have m: "d_cpf (toUserDTO ana) = ''123.456.789-01''"
    by (simp add: toUserDTO_def ana_def strip_non_digits_def is_digit_def)
  from cpf_stored_digits_and_masked [OF disjI1 [OF h], of ana] h m
  show ?thesis by (simp add: ana_def is_masked_cpf_def is_digit_def)
qed

section \<open>Entry ids\<close>

declare toString.simps [simp del]

lemma toString_small: "n < 10 \<Longrightarrow> toString n = [digit_char n]"
  by (subst toString.simps) simp

lemma toString_big:
  "\<not> n < 10 \<Longrightarrow> toString n = toString (n div 10) @ [digit_char (n mod 10)]"
  by (subst toString.simps) simp

lemma length_initials_pieces:
  "concat (map charAt0 ws) = map hd (filter (\<lambda>w. w \<noteq> []) ws)"
proof (induction ws)
  case Nil
  then show ?case by simp
next
  case (Cons w ws)
  then show ?case by (cases w) (simp_all add: charAt0_def)
qed

lemma initials_words: "initials name = map toUpperCase_char (map hd (name_words name))"
  by (simp add: initials_def name_words_def toUpperCase_def length_initials_pieces)

lemma is_digit_digit_char: "d < 10 \<Longrightarrow> is_digit (digit_char d)"
  unfolding is_digit_def digit_char_def by (rule nth_mem) simp

lemma digits_toString: "list_all is_digit (toString n)"
proof (induction n rule: toString.induct)
  case (1 n)
  show ?case
  proof (cases "n < 10")
    case True
    then show ?thesis by (subst toString.simps) (simp add: is_digit_digit_char)
  next
    case False
    with 1 show ?thesis by (subst toString.simps) (simp add: is_digit_digit_char)
  qed
qed

lemma length_toString: "0 < k \<Longrightarrow> n < 10 ^ k \<Longrightarrow> length (toString n) \<le> k"
proof (induction k arbitrary: n)
  case 0
  then show ?case by simp
next
  case (Suc k)
  show ?case
  proof (cases "n < 10")
    case True
    then show ?thesis by (subst toString.simps) simp
  next
    case False
    then have k: "0 < k" using Suc.prems(2) by (cases k) auto
    have "n div 10 < 10 ^ k" using Suc.prems(2) by (simp add: less_mult_imp_div_less mult.commute)
    from Suc.IH [OF k this] False show ?thesis by (subst toString.simps) simp
  qed
qed

lemma randomNum_four:
  assumes "r < 9999"
  shows "length (padStart 4 CHR ''0'' (toString r)) = 4"
    and "list_all is_digit (padStart 4 CHR ''0'' (toString r))"
proof -
  have "length (toString r) \<le> 4" using length_toString [of 4 r] assms by simp
  then show "length (padStart 4 CHR ''0'' (toString r)) = 4" by (simp add: padStart_def)
  have "is_digit CHR ''0''" by (simp add: is_digit_def)
  then show "list_all is_digit (padStart 4 CHR ''0'' (toString r))"
    using digits_toString [of r] by (auto simp: padStart_def list_all_iff)
qed

lemma toUpperCase_char_lower: "is_lower c \<Longrightarrow> is_upper (toUpperCase_char c)"
proof -
  have "\<forall>c \<in> set ''abcdefghijklmnopqrstuvwxyz''. is_upper (toUpperCase_char c)"
    by code_simp
  then show "is_lower c \<Longrightarrow> is_upper (toUpperCase_char c)"
    unfolding is_lower_def by blast
qed

lemma toUpperCase_char_upper: "is_upper c \<Longrightarrow> toUpperCase_char c = c"
proof -
  have "\<forall>c \<in> set ''ABCDEFGHIJKLMNOPQRSTUVWXYZ''. toUpperCase_char c = c"
    by code_simp
  then show "is_upper c \<Longrightarrow> toUpperCase_char c = c"
    unfolding is_upper_def by blast
qed

lemma toUpperCase_char_digit: "is_digit c \<Longrightarrow> toUpperCase_char c = c"
proof -
  have "\<forall>c \<in> set ''0123456789''. toUpperCase_char c = c"
    by code_simp
  then show "is_digit c \<Longrightarrow> toUpperCase_char c = c"
    unfolding is_digit_def by blast
qed

lemma toUpperCase_char_alnum:
  "is_upper c \<or> is_lower c \<or> is_digit c \<Longrightarrow>
   is_upper (toUpperCase_char c) \<or> is_digit (toUpperCase_char c)"
  using toUpperCase_char_lower [of c] toUpperCase_char_upper [of c] toUpperCase_char_digit [of c]
  by auto

lemma toString_0: "toString 0 = ''0''"
  by (simp add: toString_small digit_char_def)

lemma toString_42: "toString 42 = ''42''"
proof -
  have "toString 42 = toString 4 @ [digit_char 2]"
    using toString_big [of 42] by simp
  also have "toString 4 = [digit_char 4]" by (simp add: toString_small)
  finally show ?thesis by (simp add: digit_char_def)
qed

lemma padStart_0: "padStart 4 CHR ''0'' ''0'' = ''0000''"
  by (simp add: padStart_def numeral_3_eq_3)

lemma padStart_42: "padStart 4 CHR ''0'' ''42'' = ''0042''"
  by (simp add: padStart_def numeral_2_eq_2)

text \<open>
  Claim C2, as the spec has it: every character of the id is an uppercase letter or a
  digit, for every non-empty name. For the name \<open>- -\<close>, the random number 0 and the
  order that reverses the characters, the id is \<open>0000--\<close>: six characters, two of them
  hyphens.
\<close>

theorem generateEntryId_design_counterexample:
  "generateEntryId ''- -'' 0 rev = ''0000--''
   \<and> \<not> list_all id_char (generateEntryId ''- -'' 0 rev)"
proof -
  have i: "initials ''- -'' = ''--''"
    by (simp add: initials_def toUpperCase_def charAt0_def toUpperCase_char_def)
  have v: "generateEntryId ''- -'' 0 rev = ''0000--''"
    by (simp add: generateEntryId_def i toString_0 padStart_0)
  show ?thesis unfolding v by (simp add: id_char_def is_upper_def is_digit_def)
qed

text \<open>
  Claim C2, amended: for every name the id is the first six characters of a
  rearrangement of the uppercased first characters of the words of the name followed by
  the random number padded to four digits. When the name has at least two words the id
  has exactly six characters, and when each word starts with an ASCII letter or a digit
  every character of the id is an uppercase letter or a digit.
\<close>

theorem generateEntryId_built:
  "generateEntryId name r shuffle
     = take 6 (shuffle (map toUpperCase_char (map hd (name_words name))
                        @ padStart 4 CHR ''0'' (toString r)))
   \<and> (r < 9999 \<longrightarrow>
        length (padStart 4 CHR ''0'' (toString r)) = 4
        \<and> list_all is_digit (padStart 4 CHR ''0'' (toString r)))
   \<and> (r < 9999 \<and> (\<forall>s. mset (shuffle s) = mset s) \<and> 2 \<le> length (name_words name) \<longrightarrow>
        length (generateEntryId name r shuffle) = 6)
   \<and> (r < 9999 \<and> (\<forall>s. mset (shuffle s) = mset s)
        \<and> (\<forall>w \<in> set (name_words name). is_upper (hd w) \<or> is_lower (hd w) \<or> is_digit (hd w)) \<longrightarrow>
        list_all id_char (generateEntryId name r shuffle))"
proof -
  let ?ini = "map toUpperCase_char (map hd (name_words name))"
  let ?num = "padStart 4 CHR ''0'' (toString r)"
  have eq: "generateEntryId name r shuffle = take 6 (shuffle (?ini @ ?num))"
    by (simp add: generateEntryId_def initials_words Let_def)
  have four: "r < 9999 \<longrightarrow> length ?num = 4 \<and> list_all is_digit ?num"
    using randomNum_four by blast
  have l6: "length (generateEntryId name r shuffle) = 6"
    if r: "r < 9999" and sh: "\<forall>s. mset (shuffle s) = mset s"
      and two: "2 \<le> length (name_words name)"
  proof -
    have "length (shuffle (?ini @ ?num)) = length (?ini @ ?num)"
      using sh by (metis size_mset)
    then show ?thesis using eq two randomNum_four(1) [OF r] by simp
  qed
  have ch: "list_all id_char (generateEntryId name r shuffle)"
    if r: "r < 9999" and sh: "\<forall>s. mset (shuffle s) = mset s"
      and alnum: "\<forall>w \<in> set (name_words name). is_upper (hd w) \<or> is_lower (hd w) \<or> is_digit (hd w)"
  proof -
    have st: "set (shuffle (?ini @ ?num)) = set (?ini @ ?num)"
      using sh by (metis set_mset_mset)
    have ini: "\<forall>c \<in> set ?ini. is_upper c \<or> is_digit c"
      using alnum toUpperCase_char_alnum by auto
    have num: "\<forall>c \<in> set ?num. is_upper c \<or> is_digit c"
      using randomNum_four(2) [OF r] by (simp add: list_all_iff)
    have "set (generateEntryId name r shuffle) \<subseteq> set (?ini @ ?num)"
      using eq st set_take_subset by metis
    with ini num show ?thesis unfolding list_all_iff id_char_def by auto
  qed
  from eq four l6 ch show ?thesis by blast
qed

theorem generateEntryId_built_witness:
  "generateEntryId ''parafuso m8'' 42 rev = ''2400MP''
   \<and> length (generateEntryId ''parafuso m8'' 42 rev) = 6
   \<and> list_all id_char (generateEntryId ''parafuso m8'' 42 rev)"
proof -
  have w: "name_words ''parafuso m8'' = [''parafuso'', ''m8'']"
    by (simp add: name_words_def)
  have i: "initials ''parafuso m8'' = ''PM''"
    by (simp add: initials_def toUpperCase_def charAt0_def toUpperCase_char_def)
  have v: "generateEntryId ''parafuso m8'' 42 rev = ''2400MP''"
    by (simp add: generateEntryId_def i toString_42 padStart_42)
  have h: "\<forall>w \<in> set (name_words ''parafuso m8'').
             is_upper (hd w) \<or> is_lower (hd w) \<or> is_digit (hd w)"
    unfolding w by (simp add: is_lower_def)
  have p: "\<forall>s. mset (rev s) = mset s" by simp
  have r: "(42::nat) < 9999" by simp
  have t: "2 \<le> length (name_words ''parafuso m8'')" unfolding w by simp
  from generateEntryId_built [of "''parafuso m8''" 42 rev] r p t h
  have "length (generateEntryId ''parafuso m8'' 42 rev) = 6
    \<and> list_all id_char (generateEntryId ''parafuso m8'' 42 rev)"
    by blast
  with v show ?thesis by blast
qed

section \<open>The document filter query\<close>

lemma like_percent: "like (CHR ''%'' # ps) s \<longleftrightarrow> (\<exists>k\<le>length s. like ps (drop k s))"
proof (induction s)
  case Nil
  then show ?case by simp
next
  case (Cons c cs)
  have "(\<exists>k\<le>length (c # cs). like ps (drop k (c # cs)))
          \<longleftrightarrow> like ps (c # cs) \<or> (\<exists>k\<le>length cs. like ps (drop k cs))"
  proof
    assume "\<exists>k\<le>length (c # cs). like ps (drop k (c # cs))"
    then obtain k where k: "k \<le> length (c # cs)" "like ps (drop k (c # cs))" by blast
    show "like ps (c # cs) \<or> (\<exists>k\<le>length cs. like ps (drop k cs))"
    proof (cases k)
      case 0
      with k show ?thesis by simp
    next
      case (Suc j)
      with k have "j \<le> length cs" "like ps (drop j cs)" by simp_all
      then show ?thesis by blast
    qed
  next
    assume "like ps (c # cs) \<or> (\<exists>k\<le>length cs. like ps (drop k cs))"
    then show "\<exists>k\<le>length (c # cs). like ps (drop k (c # cs))"
    proof
      assume "like ps (c # cs)"
      then have "like ps (drop 0 (c # cs))" by simp
      then show ?thesis by blast
    next
      assume "\<exists>k\<le>length cs. like ps (drop k cs)"
      then obtain k where "k \<le> length cs" "like ps (drop k cs)" by blast
      then have "Suc k \<le> length (c # cs)" "like ps (drop (Suc k) (c # cs))" by simp_all
      then show ?thesis by blast
    qed
  qed
  with Cons show ?case by simp
qed

lemma like_literal:
  "\<not> list_ex like_special v \<Longrightarrow> like (v @ ps) s \<longleftrightarrow> (\<exists>t. s = v @ t \<and> like ps t)"
proof (induction v arbitrary: s)
  case Nil
  then show ?case by simp
next
  case (Cons a v)
  then have na: "\<not> like_special a" and v: "\<not> list_ex like_special v"
    by simp_all
  from na have a: "a \<noteq> CHR ''%''" "a \<noteq> CHR ''_''" "a \<noteq> CHR 0x5C"
    by (simp_all add: like_special_def)
  show ?case
  proof (cases s)
    case Nil
    with a show ?thesis by simp
  next
    case (Cons c cs)
    with a Cons.IH [OF v, of cs] show ?thesis by auto
  qed
qed

lemma like_any: "like ''%'' s"
  by (induction s) simp_all

lemma like_contains:
  assumes "\<not> list_ex like_special v"
  shows "like (''%'' @ v @ ''%'') s \<longleftrightarrow> sublist v s"
proof -
  have "like (''%'' @ v @ ''%'') s \<longleftrightarrow> (\<exists>k\<le>length s. \<exists>t. drop k s = v @ t)"
    using like_percent [of "v @ ''%''" s] like_literal [OF assms, of "''%''"] like_any by simp
  also have "\<dots> \<longleftrightarrow> sublist v s"
  proof
    assume "\<exists>k\<le>length s. \<exists>t. drop k s = v @ t"
    then obtain k t where "drop k s = v @ t" by blast
    then have "s = take k s @ v @ t" by (metis append_take_drop_id)
    then show "sublist v s" unfolding sublist_def by blast
  next
    assume "sublist v s"
    then obtain ps ss where s: "s = ps @ v @ ss" unfolding sublist_def by blast
    then have "length ps \<le> length s" "drop (length ps) s = v @ ss" by simp_all
    then show "\<exists>k\<le>length s. \<exists>t. drop k s = v @ t" by blast
  qed
  finally show ?thesis .
qed

lemma toLowerCase_char_cases: "toLowerCase_char c = c \<or> is_lower (toLowerCase_char c)"
proof (cases "map_of (zip ''ABCDEFGHIJKLMNOPQRSTUVWXYZ'' ''abcdefghijklmnopqrstuvwxyz'') c")
  case None
  then show ?thesis by (simp add: toLowerCase_char_def)
next
  case (Some l)
  then have "l \<in> set ''abcdefghijklmnopqrstuvwxyz''"
    by (meson map_of_SomeD set_zip_rightD)
  with Some show ?thesis by (simp add: toLowerCase_char_def is_lower_def)
qed

lemma lower_not_special: "is_lower c \<Longrightarrow> \<not> like_special c"
proof -
  have "\<forall>c \<in> set ''abcdefghijklmnopqrstuvwxyz''. \<not> like_special c"
    by code_simp
  then show "is_lower c \<Longrightarrow> \<not> like_special c" unfolding is_lower_def by blast
qed

lemma toLowerCase_plain: "\<not> list_ex like_special v \<Longrightarrow> \<not> list_ex like_special (toLowerCase v)"
proof (induction v)
  case Nil
  then show ?case by (simp add: toLowerCase_def)
next
  case (Cons a v)
  then have "\<not> like_special a" and "\<not> list_ex like_special (toLowerCase v)" by simp_all
  moreover have "\<not> like_special (toLowerCase_char a)"
    using toLowerCase_char_cases [of a] lower_not_special \<open>\<not> like_special a\<close> by auto
  ultimately show ?case by (simp add: toLowerCase_def)
qed

lemma andWhere_if: "(if b then andWhere q c else q) = (\<lambda>doc. q doc \<and> (b \<longrightarrow> c doc))"
  by (auto simp: andWhere_def)

lemma truthy_str_case:
  "(case (if truthy_str v then v else None) of None \<Rightarrow> True | Some t \<Rightarrow> P t)
     = (truthy_str v \<longrightarrow> P (the v))"
  by (cases v) (simp_all add: truthy_str_def)

lemma truthy_num_case:
  "(case (if truthy_num v then v else None) of None \<Rightarrow> True | Some t \<Rightarrow> P t)
     = (truthy_num v \<longrightarrow> P (the v))"
  by (cases v) (simp_all add: truthy_num_def)

lemma findWithFilters_pred:
  "findWithFilters toDocumentDTO docs filters =
     map toDocumentDTO (filter (\<lambda>doc.
        (truthy_str (f_file_type filters) \<longrightarrow> doc_file_type doc = the (f_file_type filters))
        \<and> (truthy_num (f_user_id filters) \<longrightarrow> doc_user doc = Some (the (f_user_id filters)))
        \<and> (truthy_num (f_id filters) \<longrightarrow> doc_id doc = the (f_id filters))
        \<and> (truthy_str (f_filename filters) \<longrightarrow>
             like (''%'' @ toLowerCase (the (f_filename filters)) @ ''%'')
                  (toLowerCase (doc_filename doc)))
        \<and> (truthy_str (f_upload_date filters) \<longrightarrow>
             DATE (doc_upload_date doc) = the (f_upload_date filters))) docs)"
  unfolding findWithFilters_def Let_def andWhere_if by simp

lemma spec_matches_drop_falsy:
  "spec_matches (drop_falsy filters) doc =
     ((truthy_str (f_file_type filters) \<longrightarrow> doc_file_type doc = the (f_file_type filters))
      \<and> (truthy_num (f_user_id filters) \<longrightarrow> doc_user doc = Some (the (f_user_id filters)))
      \<and> (truthy_num (f_id filters) \<longrightarrow> doc_id doc = the (f_id filters))
      \<and> (truthy_str (f_filename filters) \<longrightarrow>
           sublist (toLowerCase (the (f_filename filters))) (toLowerCase (doc_filename doc)))
      \<and> (truthy_str (f_upload_date filters) \<longrightarrow>
           DATE (doc_upload_date doc) = the (f_upload_date filters)))"
  unfolding spec_matches_def drop_falsy_def
  by (simp only: DocumentFilter.simps truthy_str_case truthy_num_case)

text \<open>
  Claim C5, amended: when the filename filter holds none of the characters \<open>%\<close>,
  \<open>_\<close> and backslash, the result is, in table order, the documents that satisfy the
  conjunction of the predicates of the filters whose value is truthy (a non-empty string,
  a number other than 0): file type equality, owner id equality, id equality,
  case-insensitive substring match on the filename, equality of the upload date. A
  filter that is absent or falsy imposes no constraint, and with no filters every
  document is returned.
\<close>

theorem findWithFilters_conjunction:
  assumes "\<forall>n. f_filename filters = Some n \<longrightarrow> \<not> list_ex like_special n"
  shows "findWithFilters toDocumentDTO docs filters
           = spec_filter_query toDocumentDTO docs (drop_falsy filters)
    \<and> findWithFilters toDocumentDTO docs no_filters = map toDocumentDTO docs"
proof -
  have fn: "like (''%'' @ toLowerCase (the (f_filename filters)) @ ''%'') s
          = sublist (toLowerCase (the (f_filename filters))) s"
    if "truthy_str (f_filename filters)" for s
  proof -
    from that obtain n where n: "f_filename filters = Some n"
      by (cases "f_filename filters") (simp_all add: truthy_str_def)
    with assms have "\<not> list_ex like_special (toLowerCase n)"
      using toLowerCase_plain by blast
    from like_contains [OF this] n show ?thesis by simp
  qed
  have "filter (\<lambda>doc.
        (truthy_str (f_file_type filters) \<longrightarrow> doc_file_type doc = the (f_file_type filters))
        \<and> (truthy_num (f_user_id filters) \<longrightarrow> doc_user doc = Some (the (f_user_id filters)))
        \<and> (truthy_num (f_id filters) \<longrightarrow> doc_id doc = the (f_id filters))
        \<and> (truthy_str (f_filename filters) \<longrightarrow>
             like (''%'' @ toLowerCase (the (f_filename filters)) @ ''%'')
                  (toLowerCase (doc_filename doc)))
        \<and> (truthy_str (f_upload_date filters) \<longrightarrow>
             DATE (doc_upload_date doc) = the (f_upload_date filters))) docs
      = filter (spec_matches (drop_falsy filters)) docs"
    by (rule filter_cong [OF refl]) (use fn in \<open>auto simp only: spec_matches_drop_falsy\<close>)
  then have "findWithFilters toDocumentDTO docs filters
           = spec_filter_query toDocumentDTO docs (drop_falsy filters)"
    unfolding findWithFilters_pred spec_filter_query_def by simp
  moreover have "findWithFilters toDocumentDTO docs no_filters = map toDocumentDTO docs"
    by (simp add: findWithFilters_def no_filters_def truthy_str_def truthy_num_def)
  ultimately show ?thesis by blast
qed

text \<open>
  Claim C10: a filter whose value is falsy, the empty string for the file type or the
  filename, the number 0 for the owner id or the id, gives the result of the same query
  with that filter absent; alone, \<open>id = 0\<close> and \<open>filename = ""\<close> return every document.
\<close>

theorem findWithFilters_falsy_as_absent:
  "findWithFilters toDocumentDTO docs filters
     = findWithFilters toDocumentDTO docs (drop_falsy filters)
   \<and> findWithFilters toDocumentDTO docs (filters\<lparr>f_file_type := Some ''''\<rparr>)
     = findWithFilters toDocumentDTO docs (filters\<lparr>f_file_type := None\<rparr>)
   \<and> findWithFilters toDocumentDTO docs (filters\<lparr>f_filename := Some ''''\<rparr>)
     = findWithFilters toDocumentDTO docs (filters\<lparr>f_filename := None\<rparr>)
   \<and> findWithFilters toDocumentDTO docs (filters\<lparr>f_user_id := Some 0\<rparr>)
     = findWithFilters toDocumentDTO docs (filters\<lparr>f_user_id := None\<rparr>)
   \<and> findWithFilters toDocumentDTO docs (filters\<lparr>f_id := Some 0\<rparr>)
     = findWithFilters toDocumentDTO docs (filters\<lparr>f_id := None\<rparr>)
   \<and> findWithFilters toDocumentDTO docs (no_filters\<lparr>f_id := Some 0\<rparr>) = map toDocumentDTO docs
   \<and> findWithFilters toDocumentDTO docs (no_filters\<lparr>f_filename := Some ''''\<rparr>)
     = map toDocumentDTO docs"
  by (simp add: findWithFilters_def drop_falsy_def no_filters_def truthy_str_def truthy_num_def)

text \<open>
  Claim C5, as the spec has it: the result is the set of documents that satisfy every
  provided predicate. With the file type filter provided as the empty string, the query
  returns the document of type \<open>pdf\<close>, which does not satisfy file type equality.
\<close>

theorem findWithFilters_empty_type_counterexample:
  "findWithFilters doc_id [nf_doc] (no_filters\<lparr>f_file_type := Some ''''\<rparr>) = [1]
   \<and> spec_filter_query doc_id [nf_doc] (no_filters\<lparr>f_file_type := Some ''''\<rparr>) = []"
  by (simp add: findWithFilters_def spec_filter_query_def spec_matches_def no_filters_def
      truthy_str_def truthy_num_def nf_doc_def)

lemma inv_in_invoice: "sublist ''inv'' ''invoice-7.pdf''"
  by code_simp
lemma inv_not_in_memo: "\<not> sublist ''inv'' ''memo.pdf''"
  by code_simp

theorem findWithFilters_conjunction_witness:
  "findWithFilters doc_id [nf_doc, memo_doc] (no_filters\<lparr>f_filename := Some ''inv''\<rparr>) = [1]"
proof -
  have l: "toLowerCase ''inv'' = ''inv''" "toLowerCase ''Invoice-7.pdf'' = ''invoice-7.pdf''"
    "toLowerCase ''memo.pdf'' = ''memo.pdf''"
    by (simp_all add: toLowerCase_def toLowerCase_char_def)
  have h: "\<forall>n. f_filename (no_filters\<lparr>f_filename := Some ''inv''\<rparr>) = Some n
             \<longrightarrow> \<not> list_ex like_special n"
    by (simp add: like_special_def)
  from findWithFilters_conjunction [OF h, of doc_id "[nf_doc, memo_doc]"]
  show ?thesis
    by (simp add: spec_filter_query_def spec_matches_def drop_falsy_def no_filters_def
        truthy_str_def truthy_num_def nf_doc_def memo_doc_def l inv_in_invoice inv_not_in_memo)
qed


end
